theory Spec2Isabelle
  imports Complex_Main "HOL-Library.Sublist"
begin

section \<open>Image extraction (src/app/lib/extract.ts)\<close>

text \<open>
  A shallow embedding of \<^verbatim>\<open>src/app/lib/extract.ts\<close>: the two helpers on URLs, the response
  observer, \<^verbatim>\<open>extractImagesFromURL\<close> and \<^verbatim>\<open>getBrowser\<close>.

  Conventions of the embedding.
  \<^item> A JavaScript string is a \<open>string\<close>, a list of code units; \<open>length\<close> is
    \<^verbatim>\<open>.length\<close>. HOL characters cover the code units below 256.
  \<^item> \<^verbatim>\<open>undefined\<close> and \<^verbatim>\<open>null\<close> are \<open>None\<close>.
  \<^item> A rejected promise or a thrown value is \<open>Inl e\<close>, a fulfilled one \<open>Inr v\<close>.
  \<^item> The browser, its pages and the remote provider are collaborators outside the
    repository. What they answer is an input of the model: a record of outcomes for the
    page (each page method is called at most once), and functions that thread a provider
    state for the session provider (attach is called in a loop).
\<close>

subsection \<open>JavaScript values and string primitives\<close>

datatype error = Error string

text \<open>
  A JavaScript number, as far as the program needs it: the result of \<^verbatim>\<open>Number(...)\<close>
  and of \<^verbatim>\<open>src.length\<close>. \<open>Num 0\<close> stands for both zeros. The \<^verbatim>\<open>size\<close> of a
  record is a \<open>jsnum option\<close>: it is a number when the record is created, and
  \<^verbatim>\<open>null\<close>, that is \<open>None\<close>, once a \<^verbatim>\<open>NaN\<close> or an infinity has crossed to the page.
\<close>

datatype jsnum = NaN | PosInfinity | NegInfinity | Num real



text \<open>
  \<^verbatim>\<open>Number(v)\<close> for \<^verbatim>\<open>v: string | undefined\<close>. ECMAScript fixes
  \<^verbatim>\<open>Number(undefined)\<close> to \<^verbatim>\<open>NaN\<close>, and gives a string of decimal digits the
  number it denotes, without rounding up to 9007199254740992, which is 2 to the 53. What
  StringToNumber gives for the remaining strings is a parameter of the model, so
  nothing is assumed about it.
\<close>

definition digit_value :: "char \<Rightarrow> nat option" where
  "digit_value c = map_of (zip ''0123456789'' [0, 1, 2, 3, 4, 5, 6, 7, 8, 9]) c"

definition decimal_literal :: "string \<Rightarrow> bool" where
  "decimal_literal s = (s \<noteq> [] \<and> list_all (\<lambda>c. digit_value c \<noteq> None) s)"

definition decimal_value :: "string \<Rightarrow> nat" where
  "decimal_value s =
     foldl (\<lambda>n c. 10 * n + (case digit_value c of Some d \<Rightarrow> d | None \<Rightarrow> 0)) 0 s"

fun Number_js :: "(string \<Rightarrow> jsnum) \<Rightarrow> string option \<Rightarrow> jsnum" where
  "Number_js StringToNumber None = NaN"
| "Number_js StringToNumber (Some s) =
     (if decimal_literal s \<and> decimal_value s \<le> 9007199254740992
      then Num (real (decimal_value s)) else StringToNumber s)"

text \<open>
  \<^verbatim>\<open>String.prototype.toLowerCase\<close>, on the letters A to Z. The remaining code units are
  left as they are: no other code unit below 256 lower-cases to an ASCII letter, and the
  program only compares the result with ASCII suffixes.
\<close>

definition lower_char :: "char \<Rightarrow> char" where
  "lower_char c =
     (case map_of (zip ''ABCDEFGHIJKLMNOPQRSTUVWXYZ'' ''abcdefghijklmnopqrstuvwxyz'') c of
        Some l \<Rightarrow> l
      | None \<Rightarrow> c)"

definition toLowerCase :: "string \<Rightarrow> string" where
  "toLowerCase s = map lower_char s"

definition endsWith :: "string \<Rightarrow> string \<Rightarrow> bool" where
  "endsWith s e = (length e \<le> length s \<and> drop (length s - length e) s = e)"

definition startsWith :: "string \<Rightarrow> string \<Rightarrow> bool" where
  "startsWith s p = (take (length p) s = p)"

text \<open>Truthiness of a \<^verbatim>\<open>string | undefined\<close>: defined and not empty.\<close>

fun truthy :: "string option \<Rightarrow> bool" where
  "truthy None = False"
| "truthy (Some s) = (s \<noteq> [])"

subsection \<open>The helpers on URLs\<close>

definition IMAGE_EXTENSIONS :: "string list" where
  "IMAGE_EXTENSIONS =
     [''.jpg'', ''.jpeg'', ''.png'', ''.gif'', ''.webp'', ''.bmp'', ''.ico'', ''.svg'']"

definition isImageUrl :: "string \<Rightarrow> bool" where
  "isImageUrl url =
     (let urlLower = toLowerCase url
      in list_ex (\<lambda>ext. endsWith urlLower ext) IMAGE_EXTENSIONS)"

definition getMimeTypeFromUrl :: "string \<Rightarrow> string option" where
  "getMimeTypeFromUrl url =
     (let urlLower = toLowerCase url in
      if endsWith urlLower ''.jpg'' \<or> endsWith urlLower ''.jpeg'' then Some ''image/jpeg''
      else if endsWith urlLower ''.png'' then Some ''image/png''
      else if endsWith urlLower ''.gif'' then Some ''image/gif''
      else if endsWith urlLower ''.webp'' then Some ''image/webp''
      else if endsWith urlLower ''.bmp'' then Some ''image/bmp''
      else if endsWith urlLower ''.ico'' then Some ''image/x-icon''
      else if endsWith urlLower ''.svg'' then Some ''image/svg+xml''
      else None)"

subsection \<open>Image records and the response observer\<close>

record ExtractImageData =
  src :: string
  size :: "jsnum option"
  mimeType :: string
  width :: nat
  height :: nat
  decoded :: bool

text \<open>
  A network response as the observer reads it: \<^verbatim>\<open>response.url()\<close> and
  \<^verbatim>\<open>response.headers()\<close>, an object from header names to strings.
\<close>

record response =
  url :: string
  headers :: "string \<rightharpoonup> string"

text \<open>
  \<^verbatim>\<open>contentType?.startsWith("image") || isImageUrl(responseUrl)\<close>: an absent header
  makes the left operand \<^verbatim>\<open>undefined\<close>, which is falsy.
\<close>

definition isImage :: "response \<Rightarrow> bool" where
  "isImage r =
     (let responseUrl = url r; contentType = headers r ''content-type'' in
      (case contentType of None \<Rightarrow> False | Some c \<Rightarrow> startsWith c ''image'')
      \<or> isImageUrl responseUrl)"

text \<open>
  \<^verbatim>\<open>contentType || getMimeTypeFromUrl(responseUrl) || 'image/unknown'\<close>: each
  \<^verbatim>\<open>||\<close> passes over a falsy left operand, so also over the empty string.
\<close>

definition resolveMimeType :: "string option \<Rightarrow> string \<Rightarrow> string" where
  "resolveMimeType contentType responseUrl =
     (if truthy contentType then (case contentType of Some c \<Rightarrow> c | None \<Rightarrow> [])
      else (case getMimeTypeFromUrl responseUrl of
              Some m \<Rightarrow> (if m \<noteq> [] then m else ''image/unknown'')
            | None \<Rightarrow> ''image/unknown''))"

text \<open>The record pushed for a qualifying response (lines 43 to 57).\<close>

definition newRecord :: "(string \<Rightarrow> jsnum) \<Rightarrow> response \<Rightarrow> ExtractImageData" where
  "newRecord StringToNumber r =
     (let responseUrl = url r;
          contentType = headers r ''content-type'';
          src = responseUrl;
          size0 = Number_js StringToNumber (headers r ''content-length'');
          size1 = (if startsWith src ''data:'' then Num (real (length src)) else size0)
      in \<lparr> src = src, size = Some size1,
           mimeType = resolveMimeType contentType responseUrl,
           width = 0, height = 0, decoded = False \<rparr>)"

text \<open>
  The handler of \<^verbatim>\<open>page.on("response", ...)\<close>: it has no \<^verbatim>\<open>await\<close>, so it runs to
  its end when the event fires, on the array the variable \<^verbatim>\<open>images\<close> holds then.
\<close>

definition on_response :: "(string \<Rightarrow> jsnum) \<Rightarrow> ExtractImageData list \<Rightarrow> response
    \<Rightarrow> ExtractImageData list" where
  "on_response StringToNumber images r =
     (if isImage r then images @ [newRecord StringToNumber r] else images)"

definition on_responses :: "(string \<Rightarrow> jsnum) \<Rightarrow> ExtractImageData list \<Rightarrow> response list
    \<Rightarrow> ExtractImageData list" where
  "on_responses StringToNumber images rs = foldl (on_response StringToNumber) images rs"

subsection \<open>The page, as the extractor uses it\<close>

text \<open>
  Each page method is awaited once, so its outcome is a value: \<open>None\<close> when the promise
  is fulfilled, \<open>Some e\<close> when it is rejected with \<open>e\<close>. JavaScript runs the handler only
  while the function is suspended in an \<^verbatim>\<open>await\<close>, so the responses come in groups: those
  that arrive while \<^verbatim>\<open>page.goto\<close>, \<^verbatim>\<open>page.screenshot\<close> and \<^verbatim>\<open>page.close\<close> are
  pending. Responses that arrive while \<^verbatim>\<open>page.evaluate\<close> is pending are pushed on the
  array that the assignment of line 62 then replaces, so they leave no trace and the
  record has no field for them. \<open>img_decode i s\<close> is what the page's image facility
  answers for the element at index \<open>i\<close>, whose \<^verbatim>\<open>src\<close> is \<open>s\<close>: \<open>Some (w, h)\<close> when
  \<^verbatim>\<open>img.decode()\<close> is fulfilled, with \<^verbatim>\<open>img.width\<close> and \<^verbatim>\<open>img.height\<close>, and
  \<open>None\<close> when anything in the \<^verbatim>\<open>try\<close> block throws.
\<close>

record page_env =
  newPage_outcome :: "error option"
  goto_outcome :: "string \<Rightarrow> error option"
  goto_responses :: "string \<Rightarrow> response list"
  screenshot_outcome :: "error option"
  screenshot_responses :: "response list"
  evaluate_outcome :: "error option"
  img_decode :: "nat \<Rightarrow> string \<Rightarrow> (nat \<times> nat) option"
  close_outcome :: "error option"
  close_responses :: "response list"

text \<open>The calls made on the browser and the page, in order.\<close>

datatype page_call = NewPage | On_response | Goto string | Screenshot | Evaluate | Close

text \<open>The body of the \<^verbatim>\<open>images.map\<close> callback (lines 65 to 75), given the decode outcome.\<close>

definition decode_attempt :: "(nat \<times> nat) option \<Rightarrow> ExtractImageData \<Rightarrow> ExtractImageData" where
  "decode_attempt outcome img =
     (case outcome of
        Some (w, h) \<Rightarrow> img\<lparr> width := w, height := h, decoded := True \<rparr>
      | None \<Rightarrow> img)"

text \<open>
  \<^verbatim>\<open>page.evaluate\<close> passes its argument to the page and the result back by value, as
  JSON. JSON has no \<^verbatim>\<open>NaN\<close> and no infinity and writes \<^verbatim>\<open>null\<close> for them; strings,
  finite numbers and booleans cross as they are.
\<close>

fun by_value_number :: "jsnum option \<Rightarrow> jsnum option" where
  "by_value_number (Some (Num r)) = Some (Num r)"
| "by_value_number (Some NaN) = None"
| "by_value_number (Some PosInfinity) = None"
| "by_value_number (Some NegInfinity) = None"
| "by_value_number None = None"

definition by_value :: "ExtractImageData \<Rightarrow> ExtractImageData" where
  "by_value img = img\<lparr> size := by_value_number (size img) \<rparr>"

text \<open>
  Lines 62 to 78: the records cross to the page, \<^verbatim>\<open>Promise.all(images.map(...))\<close> makes
  one attempt per element and keeps the array's order, and the results cross back.
\<close>

definition in_page :: "(nat \<Rightarrow> string \<Rightarrow> (nat \<times> nat) option) \<Rightarrow> ExtractImageData list
    \<Rightarrow> ExtractImageData list" where
  "in_page decode images =
     map by_value
       (map (\<lambda>(i, img). decode_attempt (decode i (src img)) img)
          (enumerate 0 (map by_value images)))"

subsection \<open>Making the images unique (lines 81 to 87)\<close>

text \<open>\<^verbatim>\<open>Array.prototype.findIndex\<close>: the first index whose element satisfies \<open>P\<close>, else -1.\<close>

fun findIndex_from :: "('a \<Rightarrow> bool) \<Rightarrow> nat \<Rightarrow> 'a list \<Rightarrow> int" where
  "findIndex_from P i [] = - 1"
| "findIndex_from P i (x # xs) = (if P x then int i else findIndex_from P (Suc i) xs)"

definition findIndex :: "('a \<Rightarrow> bool) \<Rightarrow> 'a list \<Rightarrow> int" where
  "findIndex P self = findIndex_from P 0 self"

text \<open>\<^verbatim>\<open>images.filter((image, index, self) => ...)\<close>.\<close>

definition filter_indexed :: "('a \<Rightarrow> nat \<Rightarrow> 'a list \<Rightarrow> bool) \<Rightarrow> 'a list \<Rightarrow> 'a list" where
  "filter_indexed f self =
     map snd (filter (\<lambda>(index, img). f img index self) (enumerate 0 self))"

definition same_image :: "ExtractImageData \<Rightarrow> ExtractImageData \<Rightarrow> bool" where
  "same_image img t = (src t = src img \<and> mimeType t = mimeType img)"

definition make_unique :: "ExtractImageData list \<Rightarrow> ExtractImageData list" where
  "make_unique images =
     filter_indexed (\<lambda>img index self. int index = findIndex (same_image img) self) images"

subsection \<open>extractImagesFromURL\<close>

text \<open>
  Lines 35 to 79: from \<^verbatim>\<open>browser.newPage()\<close> to \<^verbatim>\<open>page.close()\<close>. The result is the
  array the variable \<^verbatim>\<open>images\<close> holds at line 80, or the error thrown before, together
  with the calls made on the browser and the page.
\<close>

definition page_session :: "(string \<Rightarrow> jsnum) \<Rightarrow> page_env \<Rightarrow> string
    \<Rightarrow> (error + ExtractImageData list) \<times> page_call list" where
  "page_session StringToNumber env target =
     (case newPage_outcome env of
        Some e \<Rightarrow> (Inl e, [NewPage])
      | None \<Rightarrow>
          let images0 = on_responses StringToNumber [] (goto_responses env target) in
          (case goto_outcome env target of
             Some e \<Rightarrow> (Inl e, [NewPage, On_response, Goto target])
           | None \<Rightarrow>
               let images1 = on_responses StringToNumber images0 (screenshot_responses env) in
               (case screenshot_outcome env of
                  Some e \<Rightarrow> (Inl e, [NewPage, On_response, Goto target, Screenshot])
                | None \<Rightarrow>
                    (case evaluate_outcome env of
                       Some e \<Rightarrow>
                         (Inl e, [NewPage, On_response, Goto target, Screenshot, Evaluate])
                     | None \<Rightarrow>
                         let images2 = in_page (img_decode env) images1;
                             images3 = on_responses StringToNumber images2 (close_responses env)
                         in (case close_outcome env of
                               Some e \<Rightarrow>
                                 (Inl e, [NewPage, On_response, Goto target, Screenshot,
                                          Evaluate, Close])
                             | None \<Rightarrow>
                                 (Inr images3, [NewPage, On_response, Goto target, Screenshot,
                                                Evaluate, Close]))))))"

text \<open>
  The whole function: the \<^verbatim>\<open>catch (e) { throw e; }\<close> of lines 89 to 91 throws what it
  caught.
\<close>

definition extractImagesFromURL :: "(string \<Rightarrow> jsnum) \<Rightarrow> page_env \<Rightarrow> string
    \<Rightarrow> (error + ExtractImageData list) \<times> page_call list" where
  "extractImagesFromURL StringToNumber env target =
     (case page_session StringToNumber env target of
        (Inl e, calls) \<Rightarrow> (Inl e, calls)
      | (Inr images, calls) \<Rightarrow> (Inr (make_unique images), calls))"

subsection \<open>getBrowser\<close>

text \<open>
  The provider (\<^verbatim>\<open>@cloudflare/puppeteer\<close>) is called several times, and a later answer may
  differ from an earlier one, so its state \<open>'w\<close> is threaded through the calls. \<open>'k\<close> is
  the \<^verbatim>\<open>BrowserWorker\<close> binding and \<open>'b\<close> the \<^verbatim>\<open>Browser\<close> handle, an object and so
  truthy. \<open>limits\<close> gives the ids of \<^verbatim>\<open>limitsResp.activeSessions\<close>, and \<open>launch\<close>
  takes the \<^verbatim>\<open>keep_alive\<close> option. Console output is not modelled.
\<close>

record session =
  sessionId :: string
  connectionId :: "string option"

record ('k, 'b, 'w) puppeteer =
  sessions :: "'k \<Rightarrow> 'w \<Rightarrow> (error + session list) \<times> 'w"
  limits :: "'k \<Rightarrow> 'w \<Rightarrow> (error + string list) \<times> 'w"
  connect :: "'k \<Rightarrow> string \<Rightarrow> 'w \<Rightarrow> (error + 'b) \<times> 'w"
  launch :: "'k \<Rightarrow> nat \<Rightarrow> 'w \<Rightarrow> (error + 'b) \<times> 'w"
  connect_endpoint :: "string \<Rightarrow> 'w \<Rightarrow> (error + 'b) \<times> 'w"

text \<open>
  The two \<^verbatim>\<open>for\<close> loops (lines 104 to 113 and 117 to 126): attach to each id in turn,
  stop at the first success, pass over a failure.
\<close>

fun connect_first :: "('k, 'b, 'w) puppeteer \<Rightarrow> 'k \<Rightarrow> string list \<Rightarrow> 'w \<Rightarrow> 'b option \<times> 'w" where
  "connect_first P k [] w = (None, w)"
| "connect_first P k (sid # sids) w =
     (case connect P k sid w of
        (Inr b, w') \<Rightarrow> (Some b, w')
      | (Inl error, w') \<Rightarrow> connect_first P k sids w')"

text \<open>Lines 99 to 138: the path through the pool, for a binding that is there.\<close>

definition pool_path :: "('k, 'b, 'w) puppeteer \<Rightarrow> 'k \<Rightarrow> 'w \<Rightarrow> (error + 'b option) \<times> 'w" where
  "pool_path P k w =
     (case sessions P k w of
        (Inl e, w1) \<Rightarrow> (Inl e, w1)
      | (Inr ss, w1) \<Rightarrow>
          let sessionIds = map sessionId (filter (\<lambda>s. \<not> truthy (connectionId s)) ss) in
          (case connect_first P k sessionIds w1 of
             (Some b, w2) \<Rightarrow> (Inr (Some b), w2)
           | (None, w2) \<Rightarrow>
               (case limits P k w2 of
                  (Inl e, w3) \<Rightarrow> (Inl e, w3)
                | (Inr activitySessionIds, w3) \<Rightarrow>
                    (case connect_first P k activitySessionIds w3 of
                       (Some b, w4) \<Rightarrow> (Inr (Some b), w4)
                     | (None, w4) \<Rightarrow>
                         (case launch P k 600000 w4 of
                            (Inr b, w5) \<Rightarrow> (Inr (Some b), w5)
                          | (Inl error, w5) \<Rightarrow> (Inr None, w5))))))"

definition getBrowser :: "('k, 'b, 'w) puppeteer \<Rightarrow> 'k option \<Rightarrow> string option \<Rightarrow> 'w
    \<Rightarrow> (error + 'b option) \<times> 'w" where
  "getBrowser P BROWSER wsEndpoint w =
     (case (case BROWSER of Some k \<Rightarrow> pool_path P k w | None \<Rightarrow> (Inr None, w)) of
        (Inl e, w') \<Rightarrow> (Inl e, w')
      | (Inr (Some b), w') \<Rightarrow> (Inr (Some b), w')
      | (Inr None, w') \<Rightarrow>
          (if truthy wsEndpoint
           then (case connect_endpoint P (case wsEndpoint of Some ep \<Rightarrow> ep | None \<Rightarrow> []) w' of
                   (Inr b, w'') \<Rightarrow> (Inr (Some b), w'')
                 | (Inl error, w'') \<Rightarrow> (Inr None, w''))
           else (Inr None, w')))"

subsection \<open>Notions used to state the properties\<close>

text \<open>The pair that line 85 compares.\<close>

definition image_key :: "ExtractImageData \<Rightarrow> string \<times> string" where
  "image_key img = (src img, mimeType img)"

text \<open>
  Keeping the first record of each pair, by recursion on the list: \<open>seen\<close> holds the
  records to the left. It is proved equal to \<open>make_unique\<close> below.
\<close>

fun keep_first :: "ExtractImageData list \<Rightarrow> ExtractImageData list \<Rightarrow> ExtractImageData list" where
  "keep_first seen [] = []"
| "keep_first seen (x # xs) =
     (if list_ex (same_image x) seen then keep_first (seen @ [x]) xs
      else x # keep_first (seen @ [x]) xs)"

text \<open>The responses whose records can reach the result, in the order they are observed.\<close>

definition observed :: "page_env \<Rightarrow> string \<Rightarrow> response list" where
  "observed env target =
     goto_responses env target @ screenshot_responses env @ close_responses env"
text \<open>
  The classification and the mime type as the specification words them, to compare with
  the code: the suffix is taken of the URL's path, that is of the URL without its query
  and fragment, and the content-type header is used whenever it is there.
\<close>

definition url_without_query :: "string \<Rightarrow> string" where
  "url_without_query u = takeWhile (\<lambda>c. c \<noteq> CHR ''?'' \<and> c \<noteq> CHR ''#'') u"

definition spec_isImage :: "response \<Rightarrow> bool" where
  "spec_isImage r =
     ((case headers r ''content-type'' of None \<Rightarrow> False | Some c \<Rightarrow> prefix ''image'' c)
      \<or> list_ex (\<lambda>ext. suffix (CHR ''.'' # ext) (toLowerCase (url_without_query (url r))))
           [''jpg'', ''jpeg'', ''png'', ''gif'', ''webp'', ''bmp'', ''ico'', ''svg''])"

definition spec_mimeType :: "response \<Rightarrow> string" where
  "spec_mimeType r =
     (case headers r ''content-type'' of
        Some c \<Rightarrow> c
      | None \<Rightarrow> (case getMimeTypeFromUrl (url r) of Some m \<Rightarrow> m | None \<Rightarrow> ''image/unknown''))"

subsection \<open>Concrete inputs\<close>

text \<open>
  A StringToNumber for the runs below. Their only content-length is \<^verbatim>\<open>1024\<close>, a
  decimal literal, so no run applies it.
\<close>

definition StringToNumber_example :: "string \<Rightarrow> jsnum" where
  "StringToNumber_example s = NaN"

definition html_response :: response where
  "html_response = \<lparr> url = ''https://example.com/'',
     headers = [''content-type'' \<mapsto> ''text/html'', ''content-length'' \<mapsto> ''1024''] \<rparr>"

definition png_response :: response where
  "png_response = \<lparr> url = ''https://example.com/logo'',
     headers = [''content-type'' \<mapsto> ''image/png'', ''content-length'' \<mapsto> ''1024''] \<rparr>"

definition gif_response :: response where
  "gif_response = \<lparr> url = ''https://example.com/anim.GIF'', headers = Map.empty \<rparr>"

definition data_response :: response where
  "data_response = \<lparr> url = ''data:image/png;base64,AAAA'',
     headers = [''content-type'' \<mapsto> ''image/png''] \<rparr>"


definition query_response :: response where
  "query_response = \<lparr> url = ''https://example.com/a.png?v=2'', headers = Map.empty \<rparr>"

definition empty_type_response :: response where
  "empty_type_response = \<lparr> url = ''https://example.com/b.png'',
     headers = [''content-type'' \<mapsto> []] \<rparr>"

definition html_png_response :: response where
  "html_png_response = \<lparr> url = ''https://example.com/c.png'',
     headers = [''content-type'' \<mapsto> ''text/html''] \<rparr>"

text \<open>
  A page on which every call succeeds. The logo is answered twice; only the element at
  index 0 decodes.
\<close>

definition example_env :: page_env where
  "example_env = \<lparr>
     newPage_outcome = None,
     goto_outcome = (\<lambda>target. None),
     goto_responses = (\<lambda>target. [html_response, png_response, gif_response, png_response]),
     screenshot_outcome = None,
     screenshot_responses = [data_response],
     evaluate_outcome = None,
     img_decode = (\<lambda>i s. if i = 0 then Some (64, 32) else None),
     close_outcome = None,
     close_responses = [] \<rparr>"


definition newPage_fails_env :: page_env where
  "newPage_fails_env = example_env \<lparr> newPage_outcome := Some (Error ''no page'') \<rparr>"

definition goto_fails_env :: page_env where
  "goto_fails_env = example_env \<lparr> goto_outcome := (\<lambda>target. Some (Error ''timeout'')) \<rparr>"

definition screenshot_fails_env :: page_env where
  "screenshot_fails_env = example_env \<lparr> screenshot_outcome := Some (Error ''crashed'') \<rparr>"

text \<open>
  A provider that lists one attached and three idle sessions and lets only the third
  idle one attach. Its state is the list of the calls made.
\<close>

definition example_provider :: "(unit, string, string list) puppeteer" where
  "example_provider = \<lparr>
     sessions = (\<lambda>k w. (Inr [\<lparr> sessionId = ''s0'', connectionId = Some ''c0'' \<rparr>,
                              \<lparr> sessionId = ''s1'', connectionId = None \<rparr>,
                              \<lparr> sessionId = ''s2'', connectionId = None \<rparr>,
                              \<lparr> sessionId = ''s3'', connectionId = None \<rparr>],
                         w @ [''sessions''])),
     limits = (\<lambda>k w. (Inr [''s0''], w @ [''limits''])),
     connect = (\<lambda>k sid w. (if sid = ''s3'' then Inr ''browser of s3''
                              else Inl (Error ''attach failed''),
                             w @ [''connect '' @ sid])),
     launch = (\<lambda>k keep_alive w. (Inr ''new browser'', w @ [''launch''])),
     connect_endpoint = (\<lambda>ep w. (Inr ''browser at endpoint'', w @ [''connect endpoint''])) \<rparr>"

text \<open>The same provider when the listing of the sessions is rejected.\<close>

definition listing_fails_provider :: "(unit, string, string list) puppeteer" where
  "listing_fails_provider =
     example_provider \<lparr> sessions := (\<lambda>k w. (Inl (Error ''rate limited''), w @ [''sessions''])) \<rparr>"

text \<open>
  The records of that page. The record for the GIF is created with the size
  \<^verbatim>\<open>NaN\<close> and comes back from the page with \<^verbatim>\<open>null\<close>; the late record does not cross.
\<close>

definition logo_record :: ExtractImageData where
  "logo_record = \<lparr> src = ''https://example.com/logo'', size = Some (Num 1024),
     mimeType = ''image/png'', width = 64, height = 32, decoded = True \<rparr>"

definition logo_again_record :: ExtractImageData where
  "logo_again_record = \<lparr> src = ''https://example.com/logo'', size = Some (Num 1024),
     mimeType = ''image/png'', width = 0, height = 0, decoded = False \<rparr>"

definition gif_created_record :: ExtractImageData where
  "gif_created_record = \<lparr> src = ''https://example.com/anim.GIF'', size = Some NaN,
     mimeType = ''image/gif'', width = 0, height = 0, decoded = False \<rparr>"

definition gif_record :: ExtractImageData where
  "gif_record = \<lparr> src = ''https://example.com/anim.GIF'', size = None,
     mimeType = ''image/gif'', width = 0, height = 0, decoded = False \<rparr>"


definition data_record :: ExtractImageData where
  "data_record = \<lparr> src = ''data:image/png;base64,AAAA'', size = Some (Num 26),
     mimeType = ''image/png'', width = 0, height = 0, decoded = False \<rparr>"

definition all_calls :: "string \<Rightarrow> page_call list" where
  "all_calls target = [NewPage, On_response, Goto target, Screenshot, Evaluate, Close]"

subsection \<open>Notions used to state the results of a call\<close>

text \<open>
  The full inventory of a page, before the duplicates are removed: the records of the
  qualifying responses observed during navigation and screenshot, each after its crossing
  and its decode attempt, followed by the records of those observed while the page is
  being closed.
\<close>

definition inventory :: "(string \<Rightarrow> jsnum) \<Rightarrow> page_env \<Rightarrow> string \<Rightarrow> ExtractImageData list" where
  "inventory N env target =
     map (\<lambda>(i, r). by_value (decode_attempt (img_decode env i (url r)) (by_value (newRecord N r))))
       (enumerate 0 (filter isImage (goto_responses env target @ screenshot_responses env)))
     @ map (newRecord N) (filter isImage (close_responses env))"

text \<open>The first rejected call of a page, with its error.\<close>

definition first_rejection :: "page_env \<Rightarrow> string \<Rightarrow> error option" where
  "first_rejection env target =
     (case newPage_outcome env of Some e \<Rightarrow> Some e | None \<Rightarrow>
      (case goto_outcome env target of Some e \<Rightarrow> Some e | None \<Rightarrow>
       (case screenshot_outcome env of Some e \<Rightarrow> Some e | None \<Rightarrow>
        (case evaluate_outcome env of Some e \<Rightarrow> Some e | None \<Rightarrow> close_outcome env))))"

text \<open>
  The classification with the library's \<open>prefix\<close> and \<open>suffix\<close>: the suffix is taken
  of the whole URL string, whatever follows the path included, and carries its dot.
\<close>

definition qualifies :: "response \<Rightarrow> bool" where
  "qualifies r =
     ((\<exists>c. headers r ''content-type'' = Some c \<and> prefix ''image'' c)
      \<or> (\<exists>ext \<in> set [''.jpg'', ''.jpeg'', ''.png'', ''.gif'', ''.webp'', ''.bmp'', ''.ico'', ''.svg''].
            suffix ext (toLowerCase (url r))))"

section \<open>Properties\<close>

subsection \<open>Strings\<close>

lemma endsWith_suffix: "endsWith s e \<longleftrightarrow> suffix e s"
proof
  assume "endsWith s e"
  then have "drop (length s - length e) s = e" by (simp add: endsWith_def)
  then show "suffix e s" by (metis suffix_drop)
next
  assume "suffix e s"
  then obtain p where "s = p @ e" by (auto simp: suffix_def)
  then show "endsWith s e" by (simp add: endsWith_def)
qed

lemma startsWith_prefix: "startsWith s p \<longleftrightarrow> prefix p s"
proof
  assume "startsWith s p"
  then have "take (length p) s = p" by (simp add: startsWith_def)
  then show "prefix p s" by (metis take_is_prefix)
next
  assume "prefix p s"
  then obtain t where "s = p @ t" by (auto simp: prefix_def)
  then show "startsWith s p" by (simp add: startsWith_def)
qed

subsection \<open>The observer\<close>

lemma on_responses_filter:
  "on_responses N images rs = images @ map (newRecord N) (filter isImage rs)"
  unfolding on_responses_def
  by (induction rs arbitrary: images) (simp_all add: on_response_def)

subsection \<open>Making the images unique\<close>

lemma same_image_key: "same_image a b \<longleftrightarrow> image_key b = image_key a"
  by (auto simp: same_image_def image_key_def)

lemma findIndex_from_found:
  "list_ex P xs \<Longrightarrow> int i \<le> findIndex_from P i xs \<and> findIndex_from P i xs < int (i + length xs)"
proof (induction xs arbitrary: i)
  case Nil
  then show ?case by simp
next
  case (Cons a xs)
  show ?case
  proof (cases "P a")
    case True
    then show ?thesis by simp
  next
    case False
    with Cons.prems have "list_ex P xs" by simp
    from Cons.IH[OF this, of "Suc i"] False show ?thesis by simp
  qed
qed

lemma findIndex_from_append:
  "findIndex_from P i (pre @ xs) =
     (if list_ex P pre then findIndex_from P i pre else findIndex_from P (i + length pre) xs)"
  by (induction pre arbitrary: i) auto

lemma head_is_first:
  "int (length pre) = findIndex (same_image x) (pre @ x # xs) \<longleftrightarrow> \<not> list_ex (same_image x) pre"
proof (cases "list_ex (same_image x) pre")
  case True
  from findIndex_from_found[OF True, of 0]
  have "findIndex_from (same_image x) 0 pre < int (length pre)" by simp
  with True show ?thesis by (simp add: findIndex_def findIndex_from_append)
next
  case False
  then show ?thesis by (simp add: findIndex_def findIndex_from_append same_image_def)
qed

lemma filter_from_keep_first:
  "map snd (filter (\<lambda>(index, img). int index = findIndex (same_image img) (pre @ xs))
       (enumerate (length pre) xs)) = keep_first pre xs"
proof (induction xs arbitrary: pre)
  case Nil
  show ?case by simp
next
  case (Cons x xs)
  have "map snd (filter (\<lambda>(index, img). int index = findIndex (same_image img) ((pre @ [x]) @ xs))
       (enumerate (length (pre @ [x])) xs)) = keep_first (pre @ [x]) xs"
    by (rule Cons.IH)
  then have tl: "map snd (filter (\<lambda>(index, img). int index = findIndex (same_image img) (pre @ x # xs))
       (enumerate (Suc (length pre)) xs)) = keep_first (pre @ [x]) xs"
    by simp
  show ?case
    using tl head_is_first[of pre x xs] by simp
qed

lemma make_unique_keep_first: "make_unique images = keep_first [] images"
  using filter_from_keep_first[of "[]" images]
  by (simp add: make_unique_def filter_indexed_def)

lemma list_ex_same_image: "list_ex (same_image x) seen \<longleftrightarrow> image_key x \<in> image_key ` set seen"
proof
  assume "list_ex (same_image x) seen"
  then obtain t where "t \<in> set seen" "image_key t = image_key x"
    by (auto simp: list_ex_iff same_image_key)
  then show "image_key x \<in> image_key ` set seen" by (metis imageI)
next
  assume "image_key x \<in> image_key ` set seen"
  then obtain t where "t \<in> set seen" "image_key x = image_key t" by (rule imageE)
  then show "list_ex (same_image x) seen"
    unfolding list_ex_iff same_image_key by (intro bexI[of _ t]) simp_all
qed

lemma diff_insert_seen: "k \<in> S \<Longrightarrow> A - insert k S = insert k A - S"
  by blast

lemma diff_insert_fresh: "k \<notin> S \<Longrightarrow> insert k (A - insert k S) = insert k A - S"
  by blast

lemma keep_first_keys:
  "image_key ` set (keep_first seen xs) = image_key ` set xs - image_key ` set seen"
proof (induction xs arbitrary: seen)
  case Nil
  show ?case by simp
next
  case (Cons x xs)
  let ?A = "image_key ` set xs" and ?S = "image_key ` set seen" and ?k = "image_key x"
  have IH: "image_key ` set (keep_first (seen @ [x]) xs) = ?A - insert ?k ?S"
    using Cons.IH[of "seen @ [x]"] by simp
  show ?case
  proof (cases "list_ex (same_image x) seen")
    case True
    then have k: "?k \<in> ?S" by (simp add: list_ex_same_image)
    have "image_key ` set (keep_first seen (x # xs)) = ?A - insert ?k ?S"
      using True IH by simp
    also have "\<dots> = insert ?k ?A - ?S" using k by (rule diff_insert_seen)
    finally show ?thesis by simp
  next
    case False
    then have k: "?k \<notin> ?S" by (simp add: list_ex_same_image)
    have "image_key ` set (keep_first seen (x # xs)) = insert ?k (?A - insert ?k ?S)"
      using False IH by simp
    also have "\<dots> = insert ?k ?A - ?S" using k by (rule diff_insert_fresh)
    finally show ?thesis by simp
  qed
qed

lemma keep_first_distinct: "distinct (map image_key (keep_first seen xs))"
proof (induction xs arbitrary: seen)
  case Nil show ?case by simp
next
  case (Cons x xs)
  have "image_key x \<notin> set (map image_key (keep_first (seen @ [x]) xs))"
    using keep_first_keys[of "seen @ [x]" xs] by simp
  with Cons.IH[of "seen @ [x]"] show ?case by simp
qed

lemma keep_first_subseq: "subseq (keep_first seen xs) xs"
  by (induction xs arbitrary: seen) auto

lemma keep_first_filter:
  "filter (same_image r) (keep_first seen xs) =
     (if list_ex (same_image r) seen then []
      else (case find (same_image r) xs of Some x \<Rightarrow> [x] | None \<Rightarrow> []))"
proof (induction xs arbitrary: seen)
  case Nil show ?case by simp
next
  case (Cons x xs)
  show ?case
  proof (cases "same_image r x")
    case True
    then have "list_ex (same_image r) (seen @ [x])" by simp
    then have "filter (same_image r) (keep_first (seen @ [x]) xs) = []"
      using Cons.IH[of "seen @ [x]"] by simp
    moreover have "list_ex (same_image x) seen = list_ex (same_image r) seen"
      using True by (auto simp: list_ex_iff same_image_def)
    ultimately show ?thesis using True by simp
  next
    case False
    then have "list_ex (same_image r) (seen @ [x]) = list_ex (same_image r) seen" by simp
    then show ?thesis using False Cons.IH[of "seen @ [x]"] by simp
  qed
qed

subsection \<open>The concrete runs\<close>

lemma example_observed:
  "filter isImage (goto_responses example_env t @ screenshot_responses example_env)
     = [png_response, gif_response, png_response, data_response]"
  by (simp add: example_env_def isImage_def html_response_def png_response_def
      gif_response_def data_response_def startsWith_def isImageUrl_def
      IMAGE_EXTENSIONS_def toLowerCase_def lower_char_def endsWith_def)

lemma decimal_1024: "decimal_literal ''1024''" "decimal_value ''1024'' = 1024"
  by (simp_all add: decimal_literal_def decimal_value_def digit_value_def)

lemma example_records:
  "map (newRecord StringToNumber_example) [png_response, gif_response, png_response, data_response]
     = [logo_again_record, gif_created_record, logo_again_record, data_record]"
proof -
  have "Number_js StringToNumber_example (Some ''1024'') = Num 1024"
    by (simp add: decimal_1024)
  then show ?thesis
    by (simp add: newRecord_def png_response_def gif_response_def data_response_def
      logo_again_record_def gif_created_record_def data_record_def
      resolveMimeType_def getMimeTypeFromUrl_def startsWith_def
      toLowerCase_def lower_char_def endsWith_def)
qed

lemma example_in_page:
  "in_page (img_decode example_env)
      [logo_again_record, gif_created_record, logo_again_record, data_record]
     = [logo_record, gif_record, logo_again_record, data_record]"
  by (simp add: in_page_def enumerate_eq_zip upt_rec decode_attempt_def by_value_def
      example_env_def logo_again_record_def logo_record_def gif_created_record_def
      gif_record_def data_record_def)

lemma example_collected:
  "on_responses StringToNumber_example
      (on_responses StringToNumber_example [] (goto_responses example_env t))
      (screenshot_responses example_env)
     = [logo_again_record, gif_created_record, logo_again_record, data_record]"
proof -
  let ?N = StringToNumber_example
  have "on_responses ?N (on_responses ?N [] (goto_responses example_env t))
          (screenshot_responses example_env)
        = on_responses ?N [] (goto_responses example_env t @ screenshot_responses example_env)"
    by (simp add: on_responses_def)
  also have "\<dots> = map (newRecord ?N)
      (filter isImage (goto_responses example_env t @ screenshot_responses example_env))"
    by (simp only: on_responses_filter append_Nil)
  also have "\<dots> = [logo_again_record, gif_created_record, logo_again_record, data_record]"
    by (simp only: example_observed example_records)
  finally show ?thesis .
qed

lemma example_session:
  "page_session StringToNumber_example example_env t
     = (Inr [logo_record, gif_record, logo_again_record, data_record], all_calls t)"
proof -
  have rest: "newPage_outcome example_env = None" "goto_outcome example_env t = None"
    "screenshot_outcome example_env = None" "evaluate_outcome example_env = None"
    "close_outcome example_env = None" "close_responses example_env = []"
    by (simp_all add: example_env_def)
  have closing: "on_responses StringToNumber_example xs [] = xs" for xs
    by (simp add: on_responses_def)
  show ?thesis
    by (simp add: page_session_def Let_def all_calls_def example_collected rest
        example_in_page closing)
qed

lemma example_unique:
  "make_unique [logo_record, gif_record, logo_again_record, data_record]
     = [logo_record, gif_record, data_record]"
  by (simp add: make_unique_keep_first same_image_def logo_record_def gif_record_def
      logo_again_record_def data_record_def)

lemma example_run:
  "extractImagesFromURL StringToNumber_example example_env t
     = (Inr [logo_record, gif_record, data_record], all_calls t)"
  by (simp add: extractImagesFromURL_def example_session example_unique)





subsection \<open>What a successful call returns\<close>

lemma by_value_fields:
  "src (by_value x) = src x" "mimeType (by_value x) = mimeType x" "width (by_value x) = width x"
  "height (by_value x) = height x" "decoded (by_value x) = decoded x"
  "size (by_value x) = by_value_number (size x)"
  by (simp_all add: by_value_def)

lemma enumerate_member: "(i, x) \<in> set (enumerate n xs) \<Longrightarrow> x \<in> set xs"
  by (auto simp: in_set_enumerate_eq)

lemma enumerate_map:
  "enumerate n (map h xs) = map (\<lambda>(i, x). (i, h x)) (enumerate n xs)"
  by (simp add: enumerate_eq_zip zip_map2)

lemma in_page_inventory:
  "in_page d (map (newRecord N) rs)
     = map (\<lambda>(i, r). by_value (decode_attempt (d i (url r)) (by_value (newRecord N r))))
         (enumerate 0 rs)"
proof -
  have crossed: "src (by_value (newRecord N r)) = url r" for r
    by (simp add: by_value_fields newRecord_def Let_def)
  have "in_page d (map (newRecord N) rs)
      = map by_value (map (\<lambda>(i, img). decode_attempt (d i (src img)) img)
          (enumerate 0 (map (\<lambda>r. by_value (newRecord N r)) rs)))"
    by (simp add: in_page_def comp_def)
  also have "\<dots> = map by_value (map (\<lambda>(i, img). decode_attempt (d i (src img)) img)
          (map (\<lambda>(i, r). (i, by_value (newRecord N r))) (enumerate 0 rs)))"
    by (simp only: enumerate_map)
  also have "\<dots> = map (\<lambda>(i, r). by_value (decode_attempt (d i (url r))
          (by_value (newRecord N r)))) (enumerate 0 rs)"
    by (simp add: comp_def case_prod_unfold crossed)
  finally show ?thesis .
qed

lemma collected_inventory:
  "on_responses N
     (in_page (img_decode env)
        (on_responses N (on_responses N [] (goto_responses env t)) (screenshot_responses env)))
     (close_responses env)
   = inventory N env t"
proof -
  have "on_responses N (on_responses N [] (goto_responses env t)) (screenshot_responses env)
      = map (newRecord N) (filter isImage (goto_responses env t @ screenshot_responses env))"
    by (simp add: on_responses_filter)
  then have "in_page (img_decode env)
      (on_responses N (on_responses N [] (goto_responses env t)) (screenshot_responses env))
    = map (\<lambda>(i, r). by_value (decode_attempt (img_decode env i (url r))
          (by_value (newRecord N r))))
        (enumerate 0 (filter isImage (goto_responses env t @ screenshot_responses env)))"
    by (simp only: in_page_inventory)
  then show ?thesis
    by (simp only: on_responses_filter inventory_def)
qed

lemma page_session_cases:
  "page_session N env t =
     (case first_rejection env t of
        None \<Rightarrow> (Inr (inventory N env t), [NewPage, On_response, Goto t, Screenshot, Evaluate, Close])
      | Some e \<Rightarrow> (Inl e, snd (page_session N env t)))"
  by (simp add: page_session_def Let_def first_rejection_def collected_inventory
      split: option.splits)

lemma page_session_Inr:
  assumes "fst (page_session N env t) = Inr pre"
  shows "pre = inventory N env t"
proof (cases "first_rejection env t")
  case None
  then have "page_session N env t
      = (Inr (inventory N env t), [NewPage, On_response, Goto t, Screenshot, Evaluate, Close])"
    using page_session_cases[of N env t] by simp
  with assms show ?thesis by simp
next
  case (Some e)
  then have "fst (page_session N env t) = Inl e"
    using page_session_cases[of N env t] by (metis fst_conv option.simps(5))
  with assms show ?thesis by simp
qed

lemma extract_Inr:
  "fst (extractImagesFromURL N env t) = Inr images \<longleftrightarrow>
     (\<exists>pre. fst (page_session N env t) = Inr pre \<and> images = make_unique pre)"
  by (auto simp: extractImagesFromURL_def split: prod.splits sum.splits)

lemma make_unique_subset: "set (make_unique xs) \<subseteq> set xs"
  by (auto simp: make_unique_def filter_indexed_def in_set_enumerate_eq)

text \<open>
  Every record of a result was created from an observed response that the observer
  classified as an image. A record created before \<^verbatim>\<open>page.evaluate\<close> has crossed to the
  page, gone through one decode attempt and crossed back; a record created while the page
  was being closed is as it was created.
\<close>

lemma result_origin:
  assumes "fst (extractImagesFromURL N env t) = Inr images" and "img \<in> set images"
  shows "\<exists>r. isImage r \<and>
    ((r \<in> set (goto_responses env t @ screenshot_responses env)
        \<and> (\<exists>outcome. img = by_value (decode_attempt outcome (by_value (newRecord N r)))))
     \<or> (r \<in> set (close_responses env) \<and> img = newRecord N r))"
proof -
  from assms(1) obtain pre where pre: "fst (page_session N env t) = Inr pre"
    and images: "images = make_unique pre"
    by (auto simp: extract_Inr)
  from assms(2) images have "img \<in> set pre" using make_unique_subset by blast
  then have "img \<in> set (inventory N env t)" using page_session_Inr[OF pre] by simp
  then have "img \<in> set (map (\<lambda>(i, r). by_value (decode_attempt (img_decode env i (url r))
          (by_value (newRecord N r))))
        (enumerate 0 (filter isImage (goto_responses env t @ screenshot_responses env))))
    \<or> img \<in> set (map (newRecord N) (filter isImage (close_responses env)))"
    unfolding inventory_def set_append Un_iff .
  then show ?thesis
  proof
    assume "img \<in> set (map (\<lambda>(i, r). by_value (decode_attempt (img_decode env i (url r))
          (by_value (newRecord N r))))
        (enumerate 0 (filter isImage (goto_responses env t @ screenshot_responses env))))"
    then obtain p
      where p: "p \<in> set (enumerate 0
          (filter isImage (goto_responses env t @ screenshot_responses env)))"
        and img: "img = (\<lambda>(i, r). by_value (decode_attempt (img_decode env i (url r))
            (by_value (newRecord N r)))) p"
      unfolding set_map by (rule imageE)
    obtain i r where ir: "p = (i, r)" by (cases p)
    from p ir have "r \<in> set (filter isImage (goto_responses env t @ screenshot_responses env))"
      by (metis enumerate_member)
    then have "isImage r" "r \<in> set (goto_responses env t @ screenshot_responses env)"
      by auto
    moreover from img ir have "img = by_value (decode_attempt (img_decode env i (url r))
            (by_value (newRecord N r)))" by simp
    ultimately show ?thesis by blast
  next
    assume "img \<in> set (map (newRecord N) (filter isImage (close_responses env)))"
    then obtain r where "r \<in> set (filter isImage (close_responses env))" "img = newRecord N r"
      unfolding set_map by (rule imageE)
    then have "r \<in> set (close_responses env)" "isImage r" "img = newRecord N r"
      by simp_all
    then show ?thesis by blast
  qed
qed

lemma result_provenance:
  assumes "fst (extractImagesFromURL N env t) = Inr images" and "img \<in> set images"
  shows "\<exists>r \<in> set (observed env t). isImage r
    \<and> src img = url r \<and> mimeType img = mimeType (newRecord N r)
    \<and> (\<exists>outcome. width img = width (decode_attempt outcome (newRecord N r))
          \<and> height img = height (decode_attempt outcome (newRecord N r))
          \<and> decoded img = decoded (decode_attempt outcome (newRecord N r)))"
proof -
  have fields: "src (decode_attempt outcome x) = src x"
    "mimeType (decode_attempt outcome x) = mimeType x" for outcome x
    by (simp_all add: decode_attempt_def split: option.splits)
  have crossed: "width (decode_attempt outcome (by_value x)) = width (decode_attempt outcome x)"
    "height (decode_attempt outcome (by_value x)) = height (decode_attempt outcome x)"
    "decoded (decode_attempt outcome (by_value x)) = decoded (decode_attempt outcome x)"
    for outcome x
    by (simp_all add: decode_attempt_def by_value_def split: option.splits)
  from result_origin[OF assms] obtain r where r: "isImage r"
    and origin: "(r \<in> set (goto_responses env t @ screenshot_responses env)
        \<and> (\<exists>outcome. img = by_value (decode_attempt outcome (by_value (newRecord N r)))))
     \<or> (r \<in> set (close_responses env) \<and> img = newRecord N r)" by blast
  from origin show ?thesis
  proof
    assume "r \<in> set (goto_responses env t @ screenshot_responses env)
        \<and> (\<exists>outcome. img = by_value (decode_attempt outcome (by_value (newRecord N r))))"
    then obtain outcome where mem: "r \<in> set (observed env t)"
      and img: "img = by_value (decode_attempt outcome (by_value (newRecord N r)))"
      by (auto simp: observed_def)
    have "src img = url r \<and> mimeType img = mimeType (newRecord N r)"
      by (simp add: img by_value_fields fields newRecord_def Let_def)
    moreover have "width img = width (decode_attempt outcome (newRecord N r))
          \<and> height img = height (decode_attempt outcome (newRecord N r))
          \<and> decoded img = decoded (decode_attempt outcome (newRecord N r))"
      by (simp add: img by_value_fields crossed)
    ultimately show ?thesis using mem r by blast
  next
    assume "r \<in> set (close_responses env) \<and> img = newRecord N r"
    then have mem: "r \<in> set (observed env t)" and img: "img = newRecord N r"
      by (auto simp: observed_def)
    have "src img = url r \<and> mimeType img = mimeType (newRecord N r)"
      by (simp add: img newRecord_def Let_def)
    moreover have "width img = width (decode_attempt None (newRecord N r))
          \<and> height img = height (decode_attempt None (newRecord N r))
          \<and> decoded img = decoded (decode_attempt None (newRecord N r))"
      by (simp add: img decode_attempt_def)
    ultimately show ?thesis using mem r by blast
  qed
qed

section \<open>The claims\<close>

text \<open>
  C1. In every list that \<^verbatim>\<open>extractImagesFromURL\<close> returns, no two records have the same
  pair of \<^verbatim>\<open>src\<close> and \<^verbatim>\<open>mimeType\<close>, and the record kept for a pair is the first one
  with that pair in the order of discovery: the result is a subsequence of the list
  \<open>pre\<close> held before the filter, and for every record \<open>r\<close> of \<open>pre\<close> the result has
  exactly one record with the pair of \<open>r\<close>, namely the first such record of \<open>pre\<close>.
\<close>

theorem extract_unique_keeps_first:
  assumes "fst (extractImagesFromURL N env target) = Inr images"
  shows "distinct (map image_key images) \<and>
    (\<exists>pre. fst (page_session N env target) = Inr pre \<and> subseq images pre \<and>
       (\<forall>r \<in> set pre. map Some (filter (same_image r) images) = [find (same_image r) pre]))"
proof -
  from assms obtain pre where pre: "fst (page_session N env target) = Inr pre"
    and images: "images = keep_first [] pre"
    by (auto simp: extract_Inr make_unique_keep_first)
  have first: "map Some (filter (same_image r) images) = [find (same_image r) pre]"
    if "r \<in> set pre" for r
  proof -
    have "same_image r r" by (simp add: same_image_def)
    with that have "find (same_image r) pre \<noteq> None" by (auto simp: find_None_iff)
    then obtain x where "find (same_image r) pre = Some x" by blast
    then show ?thesis by (simp add: images keep_first_filter)
  qed
  show ?thesis
    using pre first by (auto simp: images keep_first_distinct keep_first_subseq)
qed

theorem extract_unique_keeps_first_witness:
  "fst (extractImagesFromURL StringToNumber_example example_env ''https://example.com/'')
     = Inr [logo_record, gif_record, data_record]
   \<and> distinct (map image_key [logo_record, gif_record, data_record])
   \<and> fst (page_session StringToNumber_example example_env ''https://example.com/'')
     = Inr [logo_record, gif_record, logo_again_record, data_record]
   \<and> filter (same_image logo_again_record) [logo_record, gif_record, data_record]
     = [logo_record]"
proof -
  have run: "fst (extractImagesFromURL StringToNumber_example example_env ''https://example.com/'')
     = Inr [logo_record, gif_record, data_record]"
    by (simp add: example_run)
  from extract_unique_keeps_first[OF run]
  have "distinct (map image_key [logo_record, gif_record, data_record])"
    and "\<forall>r \<in> set [logo_record, gif_record, logo_again_record, data_record].
      map Some (filter (same_image r) [logo_record, gif_record, data_record])
        = [find (same_image r) [logo_record, gif_record, logo_again_record, data_record]]"
    by (simp_all add: example_session)
  then have dist: "distinct (map image_key [logo_record, gif_record, data_record])"
    and "map Some (filter (same_image logo_again_record) [logo_record, gif_record, data_record])
        = [find (same_image logo_again_record)
             [logo_record, gif_record, logo_again_record, data_record]]"
    by simp_all
  moreover have "find (same_image logo_again_record)
      [logo_record, gif_record, logo_again_record, data_record] = Some logo_record"
    by (simp add: same_image_def logo_again_record_def logo_record_def)
  ultimately have "map Some (filter (same_image logo_again_record)
      [logo_record, gif_record, data_record]) = map Some [logo_record]"
    by (simp only: list.map)
  then have kept: "filter (same_image logo_again_record) [logo_record, gif_record, data_record]
      = [logo_record]"
    by (rule map_injective) simp
  have session: "fst (page_session StringToNumber_example example_env ''https://example.com/'')
     = Inr [logo_record, gif_record, logo_again_record, data_record]"
    by (simp add: example_session)
  from run dist session kept show ?thesis by blast
qed

lemma isImage_qualifies: "isImage r \<longleftrightarrow> qualifies r"
  by (auto simp: isImage_def qualifies_def isImageUrl_def IMAGE_EXTENSIONS_def
      startsWith_prefix endsWith_suffix split: option.splits)


lemma newRecord_fields:
  "newRecord N r =
     \<lparr> src = url r,
       size = Some (if startsWith (url r) ''data:'' then Num (real (length (url r)))
                    else Number_js N (headers r ''content-length'')),
       mimeType = resolveMimeType (headers r ''content-type'') (url r),
       width = 0, height = 0, decoded = False \<rparr>"
  by (simp add: newRecord_def Let_def)


text \<open>
  C2, as the claim states it, fails: a response without content-type header whose URL is
  \<^verbatim>\<open>https://example.com/a.png?v=2\<close> has a path that ends in \<^verbatim>\<open>.png\<close>, and the observer
  creates no record for it, since \<^verbatim>\<open>isImageUrl\<close> looks at the end of the whole string.
\<close>

theorem path_suffix_counterexample:
  "spec_isImage query_response \<and> on_response StringToNumber_example [] query_response = []"
proof -
  have "spec_isImage query_response"
    by (simp add: spec_isImage_def query_response_def url_without_query_def
        toLowerCase_def lower_char_def suffix_to_prefix)
  moreover have "\<not> isImage query_response"
    by (simp add: isImage_def query_response_def isImageUrl_def IMAGE_EXTENSIONS_def
        toLowerCase_def lower_char_def endsWith_def)
  ultimately show ?thesis by (simp add: on_response_def)
qed

text \<open>
  C2, amended. The observer appends a record for a response if and only if its
  content-type header starts with \<^verbatim>\<open>image\<close> or the whole URL string, in lower case, ends
  with one of \<^verbatim>\<open>.jpg .jpeg .png .gif .webp .bmp .ico .svg\<close>; and every record of a
  returned list has the URL of an observed response that meets one of the two conditions.
\<close>

theorem observer_records_qualifying_responses:
  "on_response N images r = (if qualifies r then images @ [newRecord N r] else images)
   \<and> (fst (extractImagesFromURL N env target) = Inr result \<longrightarrow>
        (\<forall>img \<in> set result. \<exists>r' \<in> set (observed env target). qualifies r' \<and> src img = url r'))"
proof -
  have "\<exists>r' \<in> set (observed env target). qualifies r' \<and> src img = url r'"
    if "fst (extractImagesFromURL N env target) = Inr result" "img \<in> set result" for img
  proof -
    from result_provenance[OF that] obtain r'
      where "r' \<in> set (observed env target)" "isImage r'" "src img = url r'" by blast
    then show ?thesis
      by (auto simp: isImage_qualifies)
  qed
  then show ?thesis by (simp add: on_response_def isImage_qualifies)
qed

theorem observer_records_qualifying_responses_witness:
  "on_response StringToNumber_example [] gif_response = [gif_created_record]
   \<and> on_response StringToNumber_example [logo_again_record] html_response = [logo_again_record]
   \<and> fst (extractImagesFromURL StringToNumber_example example_env ''https://example.com/'')
       = Inr [logo_record, gif_record, data_record]
   \<and> (\<exists>r' \<in> set (observed example_env ''https://example.com/'').
         qualifies r' \<and> src gif_record = url r')"
proof -
  let ?N = StringToNumber_example and ?t = "''https://example.com/''"
  have run: "fst (extractImagesFromURL ?N example_env ?t) = Inr [logo_record, gif_record, data_record]"
    by (simp add: example_run)
  have gif: "qualifies gif_response"
    by (simp add: qualifies_def gif_response_def toLowerCase_def lower_char_def suffix_to_prefix)
  have html: "\<not> qualifies html_response"
    by (simp add: qualifies_def html_response_def toLowerCase_def lower_char_def suffix_to_prefix)
  have rec: "newRecord ?N gif_response = gif_created_record"
    using example_records by simp
  from observer_records_qualifying_responses[of ?N "[]" gif_response example_env ?t
      "[logo_record, gif_record, data_record]"]
  have one: "on_response ?N [] gif_response = [gif_created_record]"
    and out: "\<exists>r' \<in> set (observed example_env ?t). qualifies r' \<and> src gif_record = url r'"
    using run gif rec by simp_all
  from observer_records_qualifying_responses[of ?N "[logo_again_record]" html_response]
  have two: "on_response ?N [logo_again_record] html_response = [logo_again_record]"
    using html by simp
  from one two run out show ?thesis by blast
qed






text \<open>
  C7. In every returned list, a record whose \<^verbatim>\<open>decoded\<close> is false has width 0 and
  height 0. A record is created with width 0, height 0 and \<^verbatim>\<open>decoded\<close> false; a failed
  decode attempt leaves it as it is; a successful one sets the three fields together.
\<close>

theorem undecoded_has_no_dimensions:
  assumes "fst (extractImagesFromURL N env target) = Inr result"
    and "img \<in> set result" and "\<not> decoded img"
  shows "width img = 0 \<and> height img = 0
    \<and> width (newRecord N r) = 0 \<and> height (newRecord N r) = 0 \<and> \<not> decoded (newRecord N r)
    \<and> decode_attempt None x = x
    \<and> decode_attempt (Some (w, h)) x = x\<lparr> width := w, height := h, decoded := True \<rparr>"
proof -
  from result_provenance[OF assms(1,2)] obtain r' outcome
    where w: "width img = width (decode_attempt outcome (newRecord N r'))"
      and h: "height img = height (decode_attempt outcome (newRecord N r'))"
      and d: "decoded img = decoded (decode_attempt outcome (newRecord N r'))" by blast
  have "outcome = None"
  proof (rule ccontr)
    assume "outcome \<noteq> None"
    then have "decoded img" by (auto simp: d decode_attempt_def)
    with assms(3) show False by simp
  qed
  then have "width img = 0 \<and> height img = 0"
    by (simp add: w h decode_attempt_def newRecord_fields)
  then show ?thesis by (simp add: decode_attempt_def newRecord_fields)
qed

theorem undecoded_has_no_dimensions_witness:
  "fst (extractImagesFromURL StringToNumber_example example_env ''https://example.com/'')
     = Inr [logo_record, gif_record, data_record]
   \<and> gif_record \<in> set [logo_record, gif_record, data_record]
   \<and> \<not> decoded gif_record \<and> width gif_record = 0 \<and> height gif_record = 0"
proof -
  let ?N = StringToNumber_example and ?t = "''https://example.com/''"
  have run: "fst (extractImagesFromURL ?N example_env ?t) = Inr [logo_record, gif_record, data_record]"
    by (simp add: example_run)
  have mem: "gif_record \<in> set [logo_record, gif_record, data_record]" by simp
  have undecoded: "\<not> decoded gif_record" by (simp add: gif_record_def)
  from undecoded_has_no_dimensions[OF run mem undecoded]
  have "width gif_record = 0 \<and> height gif_record = 0" by blast
  with run mem undecoded show ?thesis by blast
qed

lemma toLowerCase_suffix_gif:
  assumes "suffix ''.gif'' (toLowerCase u)"
  shows "getMimeTypeFromUrl u = Some ''image/gif''" and "isImageUrl u"
proof -
  from assms obtain p where p: "toLowerCase u = p @ ''.gif''" by (auto simp: suffix_def)
  have no: "\<not> endsWith (toLowerCase u) ''.jpg''" "\<not> endsWith (toLowerCase u) ''.jpeg''"
    "\<not> endsWith (toLowerCase u) ''.png''"
    by (simp_all add: p endsWith_suffix suffix_to_prefix)
  have yes: "endsWith (toLowerCase u) ''.gif''"
    using assms by (simp add: endsWith_suffix)
  show "getMimeTypeFromUrl u = Some ''image/gif''"
    by (simp add: getMimeTypeFromUrl_def Let_def no yes)
  show "isImageUrl u"
    by (simp add: isImageUrl_def IMAGE_EXTENSIONS_def Let_def yes)
qed

text \<open>
  C8, as the claim states it, fails: a response whose content-type header is there and
  empty, with the URL \<^verbatim>\<open>https://example.com/b.png\<close>, qualifies by its extension, and its
  record gets the inferred \<^verbatim>\<open>image/png\<close>, not the header.
\<close>

theorem mimeType_counterexample:
  "isImage empty_type_response
   \<and> headers empty_type_response ''content-type'' = Some []
   \<and> spec_mimeType empty_type_response = []
   \<and> mimeType (newRecord StringToNumber_example empty_type_response) = ''image/png''"
  by (simp add: isImage_def empty_type_response_def spec_mimeType_def newRecord_fields
      resolveMimeType_def getMimeTypeFromUrl_def isImageUrl_def IMAGE_EXTENSIONS_def
      startsWith_def toLowerCase_def lower_char_def endsWith_def)

text \<open>
  C8, amended. The mime type of a created record is the content-type header when that
  is there and not empty, else the type inferred from the URL's extension, else
  \<^verbatim>\<open>image/unknown\<close>. A response without content-type header whose URL ends in
  \<^verbatim>\<open>.gif\<close>, in any case of the letters, qualifies and gets \<^verbatim>\<open>image/gif\<close>.
\<close>

theorem mimeType_resolution:
  "mimeType (newRecord N r) =
     (case headers r ''content-type'' of
        Some c \<Rightarrow> if c \<noteq> [] then c
                  else (case getMimeTypeFromUrl (url r) of
                          Some m \<Rightarrow> m | None \<Rightarrow> ''image/unknown'')
      | None \<Rightarrow> (case getMimeTypeFromUrl (url r) of
                   Some m \<Rightarrow> m | None \<Rightarrow> ''image/unknown''))
   \<and> (headers r ''content-type'' = None \<and> suffix ''.gif'' (toLowerCase (url r)) \<longrightarrow>
        isImage r \<and> mimeType (newRecord N r) = ''image/gif'')"
proof -
  have known: "m \<noteq> []" if "getMimeTypeFromUrl u = Some m" for u m
    using that by (auto simp: getMimeTypeFromUrl_def Let_def split: if_splits)
  have first: "mimeType (newRecord N r) =
     (case headers r ''content-type'' of
        Some c \<Rightarrow> if c \<noteq> [] then c
                  else (case getMimeTypeFromUrl (url r) of
                          Some m \<Rightarrow> m | None \<Rightarrow> ''image/unknown'')
      | None \<Rightarrow> (case getMimeTypeFromUrl (url r) of
                   Some m \<Rightarrow> m | None \<Rightarrow> ''image/unknown''))"
    by (auto simp: newRecord_fields resolveMimeType_def known split: option.splits)
  have second: "isImage r \<and> mimeType (newRecord N r) = ''image/gif''"
    if "headers r ''content-type'' = None" "suffix ''.gif'' (toLowerCase (url r))"
    using that toLowerCase_suffix_gif[of "url r"]
    by (simp add: first isImage_def)
  from first second show ?thesis by blast
qed

theorem mimeType_resolution_witness:
  "headers gif_response ''content-type'' = None
   \<and> suffix ''.gif'' (toLowerCase (url gif_response))
   \<and> isImage gif_response
   \<and> mimeType (newRecord StringToNumber_example gif_response) = ''image/gif''"
proof -
  have none: "headers gif_response ''content-type'' = None"
    by (simp add: gif_response_def)
  have gif: "suffix ''.gif'' (toLowerCase (url gif_response))"
    by (simp add: gif_response_def toLowerCase_def lower_char_def suffix_to_prefix)
  from mimeType_resolution[of StringToNumber_example gif_response] none gif
  have "isImage gif_response \<and> mimeType (newRecord StringToNumber_example gif_response) = ''image/gif''"
    by blast
  with none gif show ?thesis by blast
qed

text \<open>
  For a response that qualifies, the last alternative is never reached: without a
  non-empty content-type header the URL has passed \<^verbatim>\<open>isImageUrl\<close>, and
  \<^verbatim>\<open>getMimeTypeFromUrl\<close> knows each of its extensions.
\<close>

lemma isImageUrl_has_mimeType: "isImageUrl u \<Longrightarrow> getMimeTypeFromUrl u \<noteq> None"
  by (auto simp: isImageUrl_def IMAGE_EXTENSIONS_def getMimeTypeFromUrl_def Let_def)

lemma qualifying_mimeType:
  assumes "isImage r"
  shows "(\<exists>c. headers r ''content-type'' = Some c \<and> c \<noteq> [] \<and> mimeType (newRecord N r) = c)
    \<or> (\<exists>m. getMimeTypeFromUrl (url r) = Some m \<and> mimeType (newRecord N r) = m)"
proof (cases "truthy (headers r ''content-type'')")
  case True
  then show ?thesis
    by (cases "headers r ''content-type''") (simp_all add: newRecord_fields resolveMimeType_def)
next
  case False
  then have "\<not> (case headers r ''content-type'' of None \<Rightarrow> False
      | Some c \<Rightarrow> startsWith c ''image'')"
    by (cases "headers r ''content-type''") (simp_all add: startsWith_def)
  with assms have "isImageUrl (url r)" by (simp add: isImage_def)
  then obtain m where m: "getMimeTypeFromUrl (url r) = Some m"
    using isImageUrl_has_mimeType by blast
  then have "m \<noteq> []"
    by (auto simp: getMimeTypeFromUrl_def Let_def split: if_splits)
  with m False show ?thesis
    by (simp add: newRecord_fields resolveMimeType_def)
qed

text \<open>
  C10. For a response whose content-type header is a non-empty string that does not
  start with \<^verbatim>\<open>image\<close> and whose URL passes \<^verbatim>\<open>isImageUrl\<close>, the observer appends a
  record, and the record's mime type is that header, as it is.
\<close>

theorem extension_branch_keeps_header:
  assumes "headers r ''content-type'' = Some c" and "c \<noteq> []"
    and "\<not> prefix ''image'' c" and "isImageUrl (url r)"
  shows "on_response N images r = images @ [newRecord N r] \<and> mimeType (newRecord N r) = c"
  using assms
  by (simp add: on_response_def isImage_def newRecord_fields resolveMimeType_def)

theorem extension_branch_keeps_header_witness:
  "headers html_png_response ''content-type'' = Some ''text/html''
   \<and> \<not> prefix ''image'' ''text/html''
   \<and> isImageUrl (url html_png_response)
   \<and> on_response StringToNumber_example [] html_png_response
       = [newRecord StringToNumber_example html_png_response]
   \<and> mimeType (newRecord StringToNumber_example html_png_response) = ''text/html''"
proof -
  have header: "headers html_png_response ''content-type'' = Some ''text/html''"
    by (simp add: html_png_response_def)
  have nonempty: "''text/html'' \<noteq> []" by simp
  have other: "\<not> prefix ''image'' ''text/html''" by simp
  have ext: "isImageUrl (url html_png_response)"
    by (simp add: html_png_response_def isImageUrl_def IMAGE_EXTENSIONS_def
        toLowerCase_def lower_char_def endsWith_def)
  from extension_branch_keeps_header[OF header nonempty other ext, of StringToNumber_example "[]"]
  have "on_response StringToNumber_example [] html_png_response
       = [newRecord StringToNumber_example html_png_response]
     \<and> mimeType (newRecord StringToNumber_example html_png_response) = ''text/html''"
    by simp
  with header other ext show ?thesis by blast
qed

text \<open>
  C6. When the listing holds three idle sessions, attaching to the first two fails and
  attaching to the third succeeds, \<^verbatim>\<open>getBrowser\<close> returns the handle of the third: the two
  failures do not end the search, and no further call is made on the provider.
\<close>

theorem third_idle_session_is_returned:
  assumes "sessions P k w0 = (Inr ss, w1)"
    and "map sessionId (filter (\<lambda>s. \<not> truthy (connectionId s)) ss) = [s1, s2, s3]"
    and "connect P k s1 w1 = (Inl e1, w2)"
    and "connect P k s2 w2 = (Inl e2, w3)"
    and "connect P k s3 w3 = (Inr handle, w4)"
  shows "getBrowser P (Some k) wsEndpoint w0 = (Inr (Some handle), w4)"
proof -
  have "connect_first P k [s1, s2, s3] w1 = (Some handle, w4)"
    using assms(3-5) by simp
  then have "pool_path P k w0 = (Inr (Some handle), w4)"
    using assms(1,2) by (simp add: pool_path_def)
  then show ?thesis by (simp add: getBrowser_def)
qed

theorem third_idle_session_is_returned_witness:
  "sessions example_provider () [] =
     (Inr [\<lparr> sessionId = ''s0'', connectionId = Some ''c0'' \<rparr>,
           \<lparr> sessionId = ''s1'', connectionId = None \<rparr>,
           \<lparr> sessionId = ''s2'', connectionId = None \<rparr>,
           \<lparr> sessionId = ''s3'', connectionId = None \<rparr>], [''sessions''])
   \<and> connect example_provider () ''s1'' [''sessions'']
       = (Inl (Error ''attach failed''), [''sessions'', ''connect s1''])
   \<and> connect example_provider () ''s2'' [''sessions'', ''connect s1'']
       = (Inl (Error ''attach failed''), [''sessions'', ''connect s1'', ''connect s2''])
   \<and> connect example_provider () ''s3'' [''sessions'', ''connect s1'', ''connect s2'']
       = (Inr ''browser of s3'', [''sessions'', ''connect s1'', ''connect s2'', ''connect s3''])
   \<and> getBrowser example_provider (Some ()) None []
       = (Inr (Some ''browser of s3''),
          [''sessions'', ''connect s1'', ''connect s2'', ''connect s3''])"
proof -
  let ?ss = "[\<lparr> sessionId = ''s0'', connectionId = Some ''c0'' \<rparr>,
           \<lparr> sessionId = ''s1'', connectionId = None \<rparr>,
           \<lparr> sessionId = ''s2'', connectionId = None \<rparr>,
           \<lparr> sessionId = ''s3'', connectionId = None \<rparr>]"
  have listing: "sessions example_provider () [] = (Inr ?ss, [''sessions''])"
    by (simp add: example_provider_def)
  have idle: "map sessionId (filter (\<lambda>s. \<not> truthy (connectionId s)) ?ss) = [''s1'', ''s2'', ''s3'']"
    by simp
  have a1: "connect example_provider () ''s1'' [''sessions'']
       = (Inl (Error ''attach failed''), [''sessions'', ''connect s1''])"
    by (simp add: example_provider_def)
  have a2: "connect example_provider () ''s2'' [''sessions'', ''connect s1'']
       = (Inl (Error ''attach failed''), [''sessions'', ''connect s1'', ''connect s2''])"
    by (simp add: example_provider_def)
  have a3: "connect example_provider () ''s3'' [''sessions'', ''connect s1'', ''connect s2'']
       = (Inr ''browser of s3'', [''sessions'', ''connect s1'', ''connect s2'', ''connect s3''])"
    by (simp add: example_provider_def)
  from third_idle_session_is_returned[OF listing idle a1 a2 a3, of None]
  have "getBrowser example_provider (Some ()) None []
       = (Inr (Some ''browser of s3''),
          [''sessions'', ''connect s1'', ''connect s2'', ''connect s3''])" .
  with listing a1 a2 a3 show ?thesis by blast
qed

text \<open>
  The loop in general: it goes through a list of any length, a failure hands the
  provider's state on to the next attempt, and the first success ends it.
\<close>

lemma connect_first_append:
  "connect_first P k (xs @ ys) w =
     (case connect_first P k xs w of
        (Some b, w') \<Rightarrow> (Some b, w')
      | (None, w') \<Rightarrow> connect_first P k ys w')"
  by (induction xs arbitrary: w) (auto split: prod.splits sum.splits option.splits)

text \<open>
  C3 does not hold of the code: \<^verbatim>\<open>puppeteer.sessions\<close> (line 100) and
  \<^verbatim>\<open>puppeteer.limits\<close> (line 115) are awaited outside any \<^verbatim>\<open>try\<close>. When the listing of
  the sessions is rejected, \<^verbatim>\<open>getBrowser\<close> is rejected with the same error: nothing is
  launched, and the direct endpoint that was supplied is not tried.
\<close>

theorem getBrowser_raises_when_listing_fails:
  "getBrowser listing_fails_provider (Some ()) (Some ''ws://localhost:9222'') []
     = (Inl (Error ''rate limited''), [''sessions''])"
  by (simp add: getBrowser_def pool_path_def listing_fails_provider_def example_provider_def)

text \<open>
  What the \<^verbatim>\<open>try\<close> blocks do achieve: when neither of the two listings is rejected,
  \<^verbatim>\<open>getBrowser\<close> returns a handle or \<^verbatim>\<open>undefined\<close>, whatever attach, launch and the
  direct connection answer.
\<close>

lemma connect_first_total: "\<exists>h w'. connect_first P k sids w = (h, w')"
  by simp

lemma getBrowser_returns_when_listings_succeed:
  assumes "\<And>k w. \<exists>ss w'. sessions P k w = (Inr ss, w')"
    and "\<And>k w. \<exists>ids w'. limits P k w = (Inr ids, w')"
  shows "\<exists>h w'. getBrowser P BROWSER wsEndpoint w = (Inr h, w')"
proof -
  have pool: "\<exists>h w'. pool_path P k w = (Inr h, w')" for k
  proof -
    from assms(1) obtain ss w1 where s: "sessions P k w = (Inr ss, w1)" by blast
    obtain h1 w2 where c1: "connect_first P k
        (map sessionId (filter (\<lambda>s. \<not> truthy (connectionId s)) ss)) w1 = (h1, w2)"
      by force
    from assms(2) obtain ids w3 where l: "limits P k w2 = (Inr ids, w3)" by blast
    obtain h2 w4 where c2: "connect_first P k ids w3 = (h2, w4)" by force
    obtain r w5 where la: "launch P k 600000 w4 = (r, w5)" by force
    show ?thesis
      by (cases h1; cases h2; cases r) (simp_all add: pool_path_def s c1 l c2 la)
  qed
  have start: "\<exists>h w'. (case BROWSER of Some k \<Rightarrow> pool_path P k w | None \<Rightarrow> (Inr None, w))
      = (Inr h, w')"
    using pool by (cases BROWSER) simp_all
  then obtain h w' where first:
    "(case BROWSER of Some k \<Rightarrow> pool_path P k w | None \<Rightarrow> (Inr None, w)) = (Inr h, w')"
    by blast
  obtain r w'' where direct:
    "connect_endpoint P (case wsEndpoint of Some ep \<Rightarrow> ep | None \<Rightarrow> []) w' = (r, w'')"
    by force
  show ?thesis
    by (cases h; cases r) (simp_all add: getBrowser_def first direct)
qed

text \<open>
  C5 does not hold of the code: \<^verbatim>\<open>page.close()\<close> (line 79) is reached only when every
  call before it succeeded, and the \<^verbatim>\<open>catch\<close> block only throws again. When the
  navigation is rejected, the call ends with that error, and the page that was opened
  is not closed.
\<close>

theorem page_left_open_when_goto_fails:
  "extractImagesFromURL StringToNumber_example goto_fails_env ''https://example.com/''
     = (Inl (Error ''timeout''), [NewPage, On_response, Goto ''https://example.com/''])
   \<and> newPage_outcome goto_fails_env = None
   \<and> Close \<notin> set (snd (extractImagesFromURL StringToNumber_example goto_fails_env
                          ''https://example.com/''))"
  by (simp add: extractImagesFromURL_def page_session_def goto_fails_env_def example_env_def)

text \<open>
  Where the page is closed: \<^verbatim>\<open>page.close()\<close> is called exactly when the page was opened
  and navigation, screenshot and evaluation all succeeded.
\<close>

lemma page_closed_iff:
  "Close \<in> set (snd (extractImagesFromURL N env target)) \<longleftrightarrow>
     newPage_outcome env = None \<and> goto_outcome env target = None
     \<and> screenshot_outcome env = None \<and> evaluate_outcome env = None"
  by (auto simp: extractImagesFromURL_def page_session_def Let_def split: option.splits)

text \<open>
  C9. When \<^verbatim>\<open>browser.newPage()\<close>, \<^verbatim>\<open>page.goto(url)\<close> or \<^verbatim>\<open>page.screenshot()\<close> is
  rejected with an error, \<^verbatim>\<open>extractImagesFromURL\<close> is rejected with that same error, after
  calling the failed method once and nothing after it. When no call is rejected, it
  returns the full inventory of the page with the duplicates removed, after calling each
  method once. A returned list is that list and no call was rejected; a thrown error is
  the error of the first rejected call. So the caller gets the full inventory or the
  original error, never both and never a part of the inventory.
\<close>

theorem page_errors_propagate:
  "(newPage_outcome env = Some e \<longrightarrow>
      extractImagesFromURL N env target = (Inl e, [NewPage]))
   \<and> (newPage_outcome env = None \<and> goto_outcome env target = Some e \<longrightarrow>
      extractImagesFromURL N env target = (Inl e, [NewPage, On_response, Goto target]))
   \<and> (newPage_outcome env = None \<and> goto_outcome env target = None
        \<and> screenshot_outcome env = Some e \<longrightarrow>
      extractImagesFromURL N env target
        = (Inl e, [NewPage, On_response, Goto target, Screenshot]))
   \<and> (newPage_outcome env = None \<and> goto_outcome env target = None
        \<and> screenshot_outcome env = None \<and> evaluate_outcome env = None
        \<and> close_outcome env = None \<longrightarrow>
      extractImagesFromURL N env target
        = (Inr (make_unique (inventory N env target)),
           [NewPage, On_response, Goto target, Screenshot, Evaluate, Close]))
   \<and> (fst (extractImagesFromURL N env target) = Inr images \<longrightarrow>
        newPage_outcome env = None \<and> goto_outcome env target = None
        \<and> screenshot_outcome env = None \<and> evaluate_outcome env = None
        \<and> close_outcome env = None
        \<and> images = make_unique (inventory N env target))
   \<and> (fst (extractImagesFromURL N env target) = Inl e' \<longrightarrow>
        first_rejection env target = Some e')"
proof -
  have errors: "(newPage_outcome env = Some e \<longrightarrow>
      extractImagesFromURL N env target = (Inl e, [NewPage]))
   \<and> (newPage_outcome env = None \<and> goto_outcome env target = Some e \<longrightarrow>
      extractImagesFromURL N env target = (Inl e, [NewPage, On_response, Goto target]))
   \<and> (newPage_outcome env = None \<and> goto_outcome env target = None
        \<and> screenshot_outcome env = Some e \<longrightarrow>
      extractImagesFromURL N env target
        = (Inl e, [NewPage, On_response, Goto target, Screenshot]))"
    by (simp add: extractImagesFromURL_def page_session_def)
  have success: "extractImagesFromURL N env target
        = (Inr (make_unique (inventory N env target)),
           [NewPage, On_response, Goto target, Screenshot, Evaluate, Close])"
    if "newPage_outcome env = None" "goto_outcome env target = None"
      "screenshot_outcome env = None" "evaluate_outcome env = None" "close_outcome env = None"
  proof -
    from that have "first_rejection env target = None"
      by (simp add: first_rejection_def)
    then have "page_session N env target = (Inr (inventory N env target),
        [NewPage, On_response, Goto target, Screenshot, Evaluate, Close])"
      using page_session_cases[of N env target] by simp
    then show ?thesis by (simp add: extractImagesFromURL_def)
  qed
  have returned: "newPage_outcome env = None \<and> goto_outcome env target = None
        \<and> screenshot_outcome env = None \<and> evaluate_outcome env = None
        \<and> close_outcome env = None
        \<and> images = make_unique (inventory N env target)"
    if r: "fst (extractImagesFromURL N env target) = Inr images"
  proof (cases "first_rejection env target")
    case None
    then have all: "newPage_outcome env = None" "goto_outcome env target = None"
      "screenshot_outcome env = None" "evaluate_outcome env = None" "close_outcome env = None"
      by (auto simp: first_rejection_def split: option.splits)
    from success[OF all] r have "images = make_unique (inventory N env target)" by simp
    with all show ?thesis by blast
  next
    case (Some x)
    then have "fst (page_session N env target) = Inl x"
      using page_session_cases[of N env target] by (metis fst_conv option.simps(5))
    then have "fst (extractImagesFromURL N env target) = Inl x"
      by (auto simp: extractImagesFromURL_def split: prod.splits sum.splits)
    with r show ?thesis by simp
  qed
  have thrown: "first_rejection env target = Some e'"
    if t: "fst (extractImagesFromURL N env target) = Inl e'"
  proof (cases "first_rejection env target")
    case None
    then have "fst (page_session N env target) = Inr (inventory N env target)"
      using page_session_cases[of N env target] by simp
    then have "fst (extractImagesFromURL N env target) = Inr (make_unique (inventory N env target))"
      by (auto simp: extractImagesFromURL_def split: prod.splits sum.splits)
    with t show ?thesis by simp
  next
    case (Some x)
    then have "fst (page_session N env target) = Inl x"
      using page_session_cases[of N env target] by (metis fst_conv option.simps(5))
    then have "fst (extractImagesFromURL N env target) = Inl x"
      by (auto simp: extractImagesFromURL_def split: prod.splits sum.splits)
    with t Some show ?thesis by simp
  qed
  from errors success returned thrown show ?thesis by blast
qed

theorem page_errors_propagate_witness:
  "newPage_outcome newPage_fails_env = Some (Error ''no page'')
   \<and> extractImagesFromURL StringToNumber_example newPage_fails_env ''https://example.com/''
       = (Inl (Error ''no page''), [NewPage])
   \<and> newPage_outcome goto_fails_env = None
   \<and> goto_outcome goto_fails_env ''https://example.com/'' = Some (Error ''timeout'')
   \<and> extractImagesFromURL StringToNumber_example goto_fails_env ''https://example.com/''
       = (Inl (Error ''timeout''), [NewPage, On_response, Goto ''https://example.com/''])
   \<and> first_rejection goto_fails_env ''https://example.com/'' = Some (Error ''timeout'')
   \<and> newPage_outcome screenshot_fails_env = None
   \<and> goto_outcome screenshot_fails_env ''https://example.com/'' = None
   \<and> screenshot_outcome screenshot_fails_env = Some (Error ''crashed'')
   \<and> extractImagesFromURL StringToNumber_example screenshot_fails_env ''https://example.com/''
       = (Inl (Error ''crashed''),
          [NewPage, On_response, Goto ''https://example.com/'', Screenshot])
   \<and> newPage_outcome example_env = None
   \<and> goto_outcome example_env ''https://example.com/'' = None
   \<and> screenshot_outcome example_env = None
   \<and> evaluate_outcome example_env = None
   \<and> close_outcome example_env = None
   \<and> extractImagesFromURL StringToNumber_example example_env ''https://example.com/''
       = (Inr (make_unique (inventory StringToNumber_example example_env ''https://example.com/'')),
          [NewPage, On_response, Goto ''https://example.com/'', Screenshot, Evaluate, Close])
   \<and> make_unique (inventory StringToNumber_example example_env ''https://example.com/'')
       = [logo_record, gif_record, data_record]"
proof -
  let ?N = StringToNumber_example and ?t = "''https://example.com/''"
  have p: "newPage_outcome newPage_fails_env = Some (Error ''no page'')"
    by (simp add: newPage_fails_env_def)
  have g: "newPage_outcome goto_fails_env = None"
    "goto_outcome goto_fails_env ?t = Some (Error ''timeout'')"
    by (simp_all add: goto_fails_env_def example_env_def)
  have s: "newPage_outcome screenshot_fails_env = None"
    "goto_outcome screenshot_fails_env ?t = None"
    "screenshot_outcome screenshot_fails_env = Some (Error ''crashed'')"
    by (simp_all add: screenshot_fails_env_def example_env_def)
  have ok: "newPage_outcome example_env = None" "goto_outcome example_env ?t = None"
    "screenshot_outcome example_env = None" "evaluate_outcome example_env = None"
    "close_outcome example_env = None"
    by (simp_all add: example_env_def)
  from page_errors_propagate[of newPage_fails_env "Error ''no page''" ?N ?t] p
  have 1: "extractImagesFromURL ?N newPage_fails_env ?t = (Inl (Error ''no page''), [NewPage])"
    by blast
  from page_errors_propagate[of goto_fails_env "Error ''timeout''" ?N ?t _ "Error ''timeout''"] g
  have 2: "extractImagesFromURL ?N goto_fails_env ?t
      = (Inl (Error ''timeout''), [NewPage, On_response, Goto ?t])"
    and second: "fst (extractImagesFromURL ?N goto_fails_env ?t) = Inl (Error ''timeout'')
      \<longrightarrow> first_rejection goto_fails_env ?t = Some (Error ''timeout'')"
    by blast+
  from 2 second have rejected: "first_rejection goto_fails_env ?t = Some (Error ''timeout'')" by simp
  from page_errors_propagate[of screenshot_fails_env "Error ''crashed''" ?N ?t] s
  have 3: "extractImagesFromURL ?N screenshot_fails_env ?t
      = (Inl (Error ''crashed''), [NewPage, On_response, Goto ?t, Screenshot])"
    by blast
  from page_errors_propagate[of example_env _ ?N ?t "[logo_record, gif_record, data_record]"] ok
  have 4: "extractImagesFromURL ?N example_env ?t
      = (Inr (make_unique (inventory ?N example_env ?t)),
         [NewPage, On_response, Goto ?t, Screenshot, Evaluate, Close])"
    and fourth: "fst (extractImagesFromURL ?N example_env ?t)
        = Inr [logo_record, gif_record, data_record]
      \<longrightarrow> [logo_record, gif_record, data_record] = make_unique (inventory ?N example_env ?t)"
    by blast+
  have "fst (extractImagesFromURL ?N example_env ?t) = Inr [logo_record, gif_record, data_record]"
    by (simp add: example_run)
  with fourth have 5: "make_unique (inventory ?N example_env ?t)
      = [logo_record, gif_record, data_record]" by simp
  from p g s ok 1 2 rejected 3 4 5 show ?thesis by blast
qed

end
